theory Spec2Isabelle
  imports Main "HOL-Library.Sublist"
begin

section \<open>The reader of \<open>mutable.py\<close>\<close>

text \<open>
  The interpreter of \<open>src/mutable.py\<close> (class \<open>Sexp\<close>, class \<open>Env\<close>, class
  \<open>Procedure\<close>) is embedded function by function. A Python \<open>str\<close> is a \<open>string\<close>
  whose characters are read as the code points below 256. Python's floating-point numbers
  and the other objects of the host that the interpreter only passes around (the members
  of the \<open>math\<close> module) are the values of a type parameter \<open>'h\<close>; what the host does
  with them enters as the fields of a record \<open>host\<close>.
\<close>

subsection \<open>Errors\<close>

text \<open>
  Every exception the source raises, or lets the host raise, is a value. The two
  \<open>SyntaxError\<close>s and the \<open>AttributeError\<close> carry the message the source gives them.
\<close>

datatype error =
    SyntaxError string
  | AttributeError string
  | IndexError
  | ValueError
  | TypeError
  | KeyError
  | ZeroDivisionError
  | HostError string

subsection \<open>Expressions\<close>

datatype 'h sexp =
    INum int
  | FNum 'h
  | Sym string
  | Lst "'h sexp list"

subsection \<open>\<open>tokenize\<close>\<close>

text \<open>\<open>str.replace(old, new)\<close> for a one-character \<open>old\<close>.\<close>

definition replace_chr :: "char \<Rightarrow> string \<Rightarrow> string \<Rightarrow> string" where
  "replace_chr old new s = concat (map (\<lambda>c. if c = old then new else [c]) s)"

text \<open>
  The characters \<open>str.split()\<close> takes for whitespace, among the code points below 256:
  tab to carriage return, the four separators \<open>0x1c\<close> to \<open>0x1f\<close>, the space, \<open>0x85\<close>
  and \<open>0xa0\<close>.
\<close>

definition is_space :: "char \<Rightarrow> bool" where
  "is_space c = (of_char c \<in> set [9, 10, 11, 12, 13, 28, 29, 30, 31, 32, 133, 160 :: nat])"

text \<open>
  \<open>str.split()\<close> without a separator: the maximal runs of characters that are not
  whitespace. \<open>split_acc w s\<close> has read the word \<open>w\<close> so far.
\<close>

fun split_acc :: "string \<Rightarrow> string \<Rightarrow> string list" where
  "split_acc w [] = (if w = [] then [] else [w])"
| "split_acc w (c # cs) =
     (if is_space c then (if w = [] then split_acc [] cs else w # split_acc [] cs)
      else split_acc (w @ [c]) cs)"

definition str_split :: "string \<Rightarrow> string list" where
  "str_split s = split_acc [] s"

definition tokenize :: "string \<Rightarrow> string list" where
  "tokenize s = str_split (replace_chr CHR '')'' '' ) '' (replace_chr CHR ''('' '' ( '' s))"

subsection \<open>\<open>atom\<close>\<close>

text \<open>
  \<open>int(token)\<close> on a token without whitespace: an optional sign, then decimal digits,
  where single underscores may stand between digits. \<open>None\<close> is the \<open>ValueError\<close>.
  (The interpreter's configurable limit on the number of digits is not modelled.)
\<close>

definition is_digit :: "char \<Rightarrow> bool" where
  "is_digit c = (48 \<le> (of_char c :: nat) \<and> (of_char c :: nat) \<le> 57)"

definition digit_val :: "char \<Rightarrow> int" where
  "digit_val c = int (of_char c) - 48"

text \<open>\<open>digits acc s\<close>: \<open>acc\<close> is the value of the digits read, the last character read was a digit.\<close>

fun digits :: "int \<Rightarrow> string \<Rightarrow> int option" where
  "digits acc [] = Some acc"
| "digits acc [c] = (if is_digit c then Some (10 * acc + digit_val c) else None)"
| "digits acc (c # d # cs) =
     (if is_digit c then digits (10 * acc + digit_val c) (d # cs)
      else if c = CHR ''_'' \<and> is_digit d then digits (10 * acc + digit_val d) cs
      else None)"

definition unsigned_int :: "string \<Rightarrow> int option" where
  "unsigned_int s =
     (case s of [] \<Rightarrow> None
      | c # cs \<Rightarrow> if is_digit c then digits (digit_val c) cs else None)"

definition py_int :: "string \<Rightarrow> int option" where
  "py_int s =
     (case s of [] \<Rightarrow> None
      | c # cs \<Rightarrow>
          if c = CHR ''-'' then map_option uminus (unsigned_int cs)
          else if c = CHR ''+'' then unsigned_int cs
          else unsigned_int s)"

text \<open>
  \<open>atom\<close>: \<open>int(token)\<close>, on its \<open>ValueError\<close> \<open>float(token)\<close>, on its \<open>ValueError\<close> the
  token itself. \<open>float\<close> is the host's: \<open>flt token\<close> is \<open>None\<close> for the
  \<open>ValueError\<close>.
\<close>

definition atom :: "(string \<Rightarrow> 'h option) \<Rightarrow> string \<Rightarrow> 'h sexp" where
  "atom flt token =
     (case py_int token of
        Some i \<Rightarrow> INum i
      | None \<Rightarrow> (case flt token of Some f \<Rightarrow> FNum f | None \<Rightarrow> Sym token))"

subsection \<open>\<open>read_from_tokens\<close>\<close>

text \<open>
  The source pops the tokens it reads off the list it was given; the model returns the
  tokens left. \<open>read_list\<close> is the \<open>while\<close> loop of the \<open>'('\<close> branch: its test
  \<open>tokens[0] != ')'\<close> indexes the list before anything has looked at its length, so on
  no tokens it raises \<open>IndexError\<close>.
\<close>

function read_from_tokens :: "(string \<Rightarrow> 'h option) \<Rightarrow> string list \<Rightarrow> error + ('h sexp \<times> string list)"
  and read_list :: "(string \<Rightarrow> 'h option) \<Rightarrow> 'h sexp list \<Rightarrow> string list \<Rightarrow> error + ('h sexp list \<times> string list)"
where
  "read_from_tokens flt [] = Inl (SyntaxError ''unexpected EOF while reading'')"
| "read_from_tokens flt (token # tokens) =
     (if token = ''('' then
        (case read_list flt [] tokens of
           Inl e \<Rightarrow> Inl e
         | Inr (L, rest) \<Rightarrow> Inr (Lst L, rest))
      else if token = '')'' then Inl (SyntaxError ''unexpected )'')
      else Inr (atom flt token, tokens))"
| "read_list flt L [] = Inl IndexError"
| "read_list flt L (t # ts) =
     (if t \<noteq> '')'' then
        (case read_from_tokens flt (t # ts) of
           Inl e \<Rightarrow> Inl e
         | Inr (x, rest) \<Rightarrow> read_list flt (L @ [x]) rest)
      else Inr (L, ts))"
  by pat_completeness auto

lemma read_shorter_dom:
  "read_from_tokens_read_list_dom (Inl (flt, ts)) \<Longrightarrow>
     read_from_tokens flt ts = Inr (x, rest) \<Longrightarrow> length rest < length ts"
  "read_from_tokens_read_list_dom (Inr (flt, L, ts)) \<Longrightarrow>
     read_list flt L ts = Inr (xs, rest) \<Longrightarrow> length rest < length ts"
proof (induction flt ts and flt L ts arbitrary: x rest and xs rest
    rule: read_from_tokens_read_list.pinduct)
  case (1 flt)
  then show ?case by (simp add: read_from_tokens.psimps)
next
  case (2 flt token tokens)
  then show ?case
    by (fastforce simp: read_from_tokens.psimps split: if_splits sum.splits prod.splits)
next
  case (3 flt L)
  then show ?case by (simp add: read_list.psimps)
next
  case (4 flt L t ts)
  show ?case
  proof (cases "t = '')''")
    case True
    with 4 show ?thesis by (simp add: read_list.psimps)
  next
    case False
    with 4(1,4) obtain y r where
      y: "read_from_tokens flt (t # ts) = Inr (y, r)" and
      r: "read_list flt (L @ [y]) r = Inr (xs, rest)"
      by (auto simp: read_list.psimps split: sum.splits)
    from 4(2) [OF False y] have "length r < length (t # ts)" .
    moreover from 4(3) [OF False y refl r] have "length rest < length r" .
    ultimately show ?thesis by simp
  qed
qed

termination read_from_tokens
proof (relation "measure (\<lambda>a. case a of Inl (flt, ts) \<Rightarrow> 2 * length ts
                                   | Inr (flt, L, ts) \<Rightarrow> 2 * length ts + 1)", goal_cases)
  case 1
  show ?case by simp
next
  case (2 flt token tokens)
  then show ?case by simp
next
  case (3 flt L t ts)
  then show ?case by simp
next
  case (4 flt L t ts x xa y)
  then show ?case using read_shorter_dom(1) [of flt "t # ts" xa y] by simp
qed

definition parse :: "(string \<Rightarrow> 'h option) \<Rightarrow> string \<Rightarrow> error + 'h sexp" where
  "parse flt program = map_sum id fst (read_from_tokens flt (tokenize program))"

section \<open>Values, environments and the state\<close>

text \<open>The thirteen entries of the table \<open>standard_env\<close> adds to the members of \<open>math\<close>.\<close>

datatype prim =
    Add | Sub | Mul | TrueDiv
  | Gt | Lt | Ge | Le | Eq
  | Print
  | AndOp | OrOp | NotOp

type_synonym addr = nat

text \<open>
  A value is an \<open>int\<close>, a \<open>bool\<close>, \<open>None\<close>, a \<open>Procedure\<close> object, one of the callables
  of the table, or an object of the host (a \<open>float\<close>, a member of \<open>math\<close>, what a member
  of \<open>math\<close> returns). A \<open>Procedure\<close> holds \<open>parms\<close>, \<open>body\<close> and a reference to its
  \<open>env\<close>; the number in front is the identity of the object, which Python's \<open>==\<close>
  compares on objects of this class.
\<close>

datatype 'h val =
    VInt int
  | VBool bool
  | VNone
  | VProc nat "'h sexp" "'h sexp" addr
  | VPrim prim
  | VHost 'h

text \<open>
  An \<open>Env\<close> is a dictionary with the attribute \<open>outer\<close>. Environments are shared and
  mutated in place, so they live in a store and are referred to by address. A frame
  records the entries under \<open>str\<close> keys: \<open>find\<close> and \<open>eval\<close> look up strings only, so
  an entry under another key is never read.
\<close>

record 'h frame =
  vars :: "string \<rightharpoonup> 'h val"
  outer :: "addr option"

text \<open>
  The state: the store of environments with the next free address, the number of
  \<open>Procedure\<close> objects made so far, and what \<open>print\<close> has written (the arguments of each
  call).
\<close>

record 'h state =
  frames :: "addr \<Rightarrow> 'h frame"
  next_addr :: addr
  next_proc :: nat
  out :: "'h val list list"

text \<open>
  What the host supplies: \<open>float\<close> on a token, the dictionary \<open>vars(math)\<close>, the functions
  of the module \<open>operator\<close> where an operand is a host object or the result is a
  \<open>float\<close>, the call of a host object, and the truth value of a host object.
\<close>

record 'h host =
  float_of :: "string \<Rightarrow> 'h option"
  math_vars :: "string \<rightharpoonup> 'h val"
  host_op :: "prim \<Rightarrow> 'h val list \<Rightarrow> error + 'h val"
  host_call :: "'h \<Rightarrow> 'h val list \<Rightarrow> error + 'h val"
  host_truthy :: "'h \<Rightarrow> bool"

subsection \<open>\<open>standard_env\<close>\<close>

definition prim_table :: "(string \<times> prim) list" where
  "prim_table =
     [(''+'', Add), (''-'', Sub), (''*'', Mul), (''/'', TrueDiv),
      (''>'', Gt), (''<'', Lt), (''>='', Ge), (''<='', Le), (''='', Eq),
      (''print'', Print),
      (''and'', AndOp),
      (''or'', OrOp),
      (''not'', NotOp)]"

text \<open>\<open>env.update(vars(math))\<close>, then \<open>env.update\<close> of the table: the table wins.\<close>

definition standard_env :: "'h host \<Rightarrow> 'h frame" where
  "standard_env H =
     \<lparr>vars = math_vars H ++ (map_option VPrim \<circ> map_of prim_table), outer = None\<rparr>"

text \<open>
  \<open>Sexp.__init__\<close>: the global environment, at address 0 of a store that holds nothing
  else.
\<close>

definition init_state :: "'h host \<Rightarrow> 'h state" where
  "init_state H =
     \<lparr>frames = (\<lambda>a. \<lparr>vars = Map.empty, outer = None\<rparr>)(0 := standard_env H),
      next_addr = 1, next_proc = 0, out = []\<rparr>"

definition global_env :: addr where
  "global_env = 0"

subsection \<open>\<open>Env.find\<close>\<close>

text \<open>
  \<open>find\<close> follows the \<open>outer\<close> references; it returns the address of the environment it
  stops at. \<open>None\<close> is a walk that does not end.
\<close>

partial_function (option) find_env :: "'h state \<Rightarrow> addr \<Rightarrow> string \<Rightarrow> (error + addr) option" where
  "find_env st a var =
     (if vars (frames st a) var \<noteq> None then Some (Inr a)
      else (case outer (frames st a) of
              Some b \<Rightarrow> find_env st b var
            | None \<Rightarrow> Some (Inl (AttributeError ''This arithmetic symbol does not exist''))))"

declare find_env.simps [code]

subsection \<open>The callables of the table\<close>

definition truthy :: "'h host \<Rightarrow> 'h val \<Rightarrow> bool" where
  "truthy H v =
     (case v of
        VInt i \<Rightarrow> i \<noteq> 0
      | VBool b \<Rightarrow> b
      | VNone \<Rightarrow> False
      | VProc _ _ _ _ \<Rightarrow> True
      | VPrim _ \<Rightarrow> True
      | VHost h \<Rightarrow> host_truthy H h)"

text \<open>A \<open>bool\<close> is an \<open>int\<close> in Python: \<open>True\<close> is 1 and \<open>False\<close> is 0.\<close>

definition as_int :: "'h val \<Rightarrow> int option" where
  "as_int v =
     (case v of
        VInt i \<Rightarrow> Some i
      | VBool b \<Rightarrow> Some (if b then 1 else 0)
      | _ \<Rightarrow> None)"

definition is_host :: "'h val \<Rightarrow> bool" where
  "is_host v = (case v of VHost _ \<Rightarrow> True | _ \<Rightarrow> False)"

text \<open>
  A function of two operands on the values the model knows: \<open>on_ints\<close> when both are
  integers, the host's when one is a host object, \<open>other\<close> on what is left.
\<close>

definition binary ::
  "'h host \<Rightarrow> prim \<Rightarrow> (int \<Rightarrow> int \<Rightarrow> error + 'h val) \<Rightarrow> ('h val \<Rightarrow> 'h val \<Rightarrow> error + 'h val) \<Rightarrow>
     'h val list \<Rightarrow> error + 'h val" where
  "binary H p on_ints other args =
     (case args of
        [a, b] \<Rightarrow>
          (case (as_int a, as_int b) of
             (Some i, Some j) \<Rightarrow> on_ints i j
           | _ \<Rightarrow> if is_host a \<or> is_host b then host_op H p [a, b] else other a b)
      | _ \<Rightarrow> Inl TypeError)"

text \<open>
  \<open>proc(*args)\<close> for a callable of the table. \<open>op.and_\<close> and \<open>op.or_\<close> are \<open>&\<close> and
  \<open>|\<close>: on two \<open>bool\<close>s a \<open>bool\<close>, on integers the bitwise operation on unbounded
  two's-complement integers. \<open>op.truediv\<close> of integers is a \<open>float\<close>, so the quotient is
  the host's. \<open>print\<close> writes its arguments and returns \<open>None\<close>.
\<close>

definition apply_prim :: "'h host \<Rightarrow> prim \<Rightarrow> 'h val list \<Rightarrow> 'h state \<Rightarrow> error + ('h val \<times> 'h state)" where
  "apply_prim H p args st =
     (case p of
        Print \<Rightarrow> Inr (VNone, st\<lparr>out := out st @ [args]\<rparr>)
      | _ \<Rightarrow>
        map_sum id (\<lambda>v. (v, st))
          (case p of
             Add \<Rightarrow> binary H p (\<lambda>i j. Inr (VInt (i + j))) (\<lambda>a b. Inl TypeError) args
           | Sub \<Rightarrow> binary H p (\<lambda>i j. Inr (VInt (i - j))) (\<lambda>a b. Inl TypeError) args
           | Mul \<Rightarrow> binary H p (\<lambda>i j. Inr (VInt (i * j))) (\<lambda>a b. Inl TypeError) args
           | TrueDiv \<Rightarrow>
               binary H p (\<lambda>i j. if j = 0 then Inl ZeroDivisionError else host_op H p args)
                 (\<lambda>a b. Inl TypeError) args
           | Gt \<Rightarrow> binary H p (\<lambda>i j. Inr (VBool (i > j))) (\<lambda>a b. Inl TypeError) args
           | Lt \<Rightarrow> binary H p (\<lambda>i j. Inr (VBool (i < j))) (\<lambda>a b. Inl TypeError) args
           | Ge \<Rightarrow> binary H p (\<lambda>i j. Inr (VBool (i \<ge> j))) (\<lambda>a b. Inl TypeError) args
           | Le \<Rightarrow> binary H p (\<lambda>i j. Inr (VBool (i \<le> j))) (\<lambda>a b. Inl TypeError) args
           | Eq \<Rightarrow> binary H p (\<lambda>i j. Inr (VBool (i = j))) (\<lambda>a b. Inr (VBool (a = b))) args
           | AndOp \<Rightarrow>
               (case args of
                  [VBool a, VBool b] \<Rightarrow> Inr (VBool (a \<and> b))
                | _ \<Rightarrow> binary H p (\<lambda>i j. Inr (VInt (and i j))) (\<lambda>a b. Inl TypeError) args)
           | OrOp \<Rightarrow>
               (case args of
                  [VBool a, VBool b] \<Rightarrow> Inr (VBool (a \<or> b))
                | _ \<Rightarrow> binary H p (\<lambda>i j. Inr (VInt (or i j))) (\<lambda>a b. Inl TypeError) args)
           | NotOp \<Rightarrow>
               (case args of
                  [a] \<Rightarrow> Inr (VBool (\<not> truthy H a))
                | _ \<Rightarrow> Inl TypeError)))"

subsection \<open>\<open>Env.__init__\<close> and assignment to an entry\<close>

text \<open>
  \<open>env[var] = value\<close>. The key is an element of the expression: a \<open>str\<close> is stored, a
  list is not hashable (\<open>TypeError\<close>), and a number is stored under a key that a frame
  does not record.
\<close>

definition bind_var :: "addr \<Rightarrow> string \<Rightarrow> 'h val \<Rightarrow> 'h state \<Rightarrow> 'h state" where
  "bind_var env s v st =
     st\<lparr>frames := (frames st)(env := (frames st env)\<lparr>vars := (vars (frames st env))(s \<mapsto> v)\<rparr>)\<rparr>"

definition setitem :: "addr \<Rightarrow> 'h sexp \<Rightarrow> 'h val \<Rightarrow> 'h state \<Rightarrow> error + 'h state" where
  "setitem env var v st =
     (case var of
        Sym s \<Rightarrow> Inr (bind_var env s v st)
      | Lst _ \<Rightarrow> Inl TypeError
      | _ \<Rightarrow> Inr st)"

text \<open>
  \<open>self.update(zip(parms, args))\<close>: \<open>zip\<close> iterates over \<open>parms\<close>, which is whatever
  stood in the \<open>lambda\<close> expression: the elements of a list, the characters of a
  \<open>str\<close>, and a \<open>TypeError\<close> for a number. It stops with the shorter of the two, and
  \<open>update\<close> stores the pairs in order.
\<close>

definition iter_parms :: "'h sexp \<Rightarrow> error + 'h sexp list" where
  "iter_parms parms =
     (case parms of
        Lst ps \<Rightarrow> Inr ps
      | Sym s \<Rightarrow> Inr (map (\<lambda>c. Sym [c]) s)
      | _ \<Rightarrow> Inl TypeError)"

fun update_zip :: "'h sexp list \<Rightarrow> 'h val list \<Rightarrow> (string \<rightharpoonup> 'h val) \<Rightarrow> error + (string \<rightharpoonup> 'h val)" where
  "update_zip (p # ps) (a # as) m =
     (case p of
        Sym s \<Rightarrow> update_zip ps as (m(s \<mapsto> a))
      | Lst _ \<Rightarrow> Inl TypeError
      | _ \<Rightarrow> update_zip ps as m)"
| "update_zip _ _ m = Inr m"

text \<open>\<open>Env(parms, args, outer)\<close>: a new environment, at the next free address.\<close>

definition new_env :: "'h sexp \<Rightarrow> 'h val list \<Rightarrow> addr \<Rightarrow> 'h state \<Rightarrow> error + (addr \<times> 'h state)" where
  "new_env parms args outer_env st =
     (case iter_parms parms of
        Inl e \<Rightarrow> Inl e
      | Inr ps \<Rightarrow>
          (case update_zip ps args Map.empty of
             Inl e \<Rightarrow> Inl e
           | Inr m \<Rightarrow>
               Inr (next_addr st,
                    st\<lparr>frames := (frames st)(next_addr st := \<lparr>vars = m, outer = Some outer_env\<rparr>),
                       next_addr := Suc (next_addr st)\<rparr>)))"

section \<open>\<open>eval\<close>\<close>

text \<open>
  A run of \<open>eval\<close> returns a value and the state it leaves, or raises. \<open>eval\<close> calls
  itself through \<open>Procedure.__call__\<close> and need not return, so it takes the depth of
  calls it may use: the outer \<open>None\<close> is a run that needs more.
\<close>

type_synonym ('h, 'a) res = "(error + 'a \<times> 'h state) option"

definition bind_res :: "('h, 'a) res \<Rightarrow> ('a \<Rightarrow> 'h state \<Rightarrow> ('h, 'b) res) \<Rightarrow> ('h, 'b) res" where
  "bind_res r f =
     (case r of
        None \<Rightarrow> None
      | Some (Inl e) \<Rightarrow> Some (Inl e)
      | Some (Inr (v, st)) \<Rightarrow> f v st)"

text \<open>\<open>[self.eval(exp, env) for exp in x[1:]]\<close>, from left to right.\<close>

fun eval_args ::
  "('h sexp \<Rightarrow> addr \<Rightarrow> 'h state \<Rightarrow> ('h, 'h val) res) \<Rightarrow> 'h sexp list \<Rightarrow> addr \<Rightarrow> 'h state \<Rightarrow>
     ('h, 'h val list) res" where
  "eval_args ev [] env st = Some (Inr ([], st))"
| "eval_args ev (e # es) env st =
     bind_res (ev e env st) (\<lambda>v st1.
       bind_res (eval_args ev es env st1) (\<lambda>vs st2. Some (Inr (v # vs, st2))))"

text \<open>
  \<open>proc(*args)\<close>. \<open>Procedure.__call__\<close> evaluates the body in
  \<open>Env(self.parms, args, self.env)\<close>; a callable of the table and a host object are
  called; an integer, a \<open>bool\<close> and \<open>None\<close> are not callable.
\<close>

definition call ::
  "('h sexp \<Rightarrow> addr \<Rightarrow> 'h state \<Rightarrow> ('h, 'h val) res) \<Rightarrow> 'h host \<Rightarrow> 'h val \<Rightarrow> 'h val list \<Rightarrow>
     'h state \<Rightarrow> ('h, 'h val) res" where
  "call ev H proc args st =
     (case proc of
        VProc pid parms body cenv \<Rightarrow>
          (case new_env parms args cenv st of
             Inl e \<Rightarrow> Some (Inl e)
           | Inr (a, st') \<Rightarrow> ev body a st')
      | VPrim p \<Rightarrow> Some (apply_prim H p args st)
      | VHost h \<Rightarrow> Some (map_sum id (\<lambda>v. (v, st)) (host_call H h args))
      | _ \<Rightarrow> Some (Inl TypeError))"

text \<open>
  \<open>eval(x, env)\<close>, in the order of the source: a \<open>str\<close>, a constant, then the list
  \<open>x\<close> by \<open>x[0]\<close> (\<open>IndexError\<close> on the empty list). Unpacking \<open>x\<close> into the wrong
  number of names is a \<open>ValueError\<close>.
\<close>

fun eval :: "nat \<Rightarrow> 'h host \<Rightarrow> 'h sexp \<Rightarrow> addr \<Rightarrow> 'h state \<Rightarrow> ('h, 'h val) res" where
  "eval 0 H x env st = None"
| "eval (Suc n) H (Sym s) env st =
     (case find_env st env s of
        None \<Rightarrow> None
      | Some (Inl e) \<Rightarrow> Some (Inl e)
      | Some (Inr a) \<Rightarrow>
          (case vars (frames st a) s of
             None \<Rightarrow> Some (Inl KeyError)
           | Some v \<Rightarrow> Some (Inr (v, st))))"
| "eval (Suc n) H (INum i) env st = Some (Inr (VInt i, st))"
| "eval (Suc n) H (FNum f) env st = Some (Inr (VHost f, st))"
| "eval (Suc n) H (Lst []) env st = Some (Inl IndexError)"
| "eval (Suc n) H (Lst (x0 # xs)) env st =
     (if x0 = Sym ''if'' then
        (case xs of
           [test, conseq, alt] \<Rightarrow>
             bind_res (eval n H test env st) (\<lambda>t st1.
               eval n H (if truthy H t then conseq else alt) env st1)
         | _ \<Rightarrow> Some (Inl ValueError))
      else if x0 = Sym ''define'' \<or> x0 = Sym ''print'' then
        (case xs of
           [var, exp] \<Rightarrow>
             bind_res (eval n H exp env st) (\<lambda>v st1.
               (case setitem env var v st1 of
                  Inl e \<Rightarrow> Some (Inl e)
                | Inr st2 \<Rightarrow> Some (Inr (VNone, st2))))
         | _ \<Rightarrow> Some (Inl ValueError))
      else if x0 = Sym ''lambda'' then
        (case xs of
           [parms, body] \<Rightarrow>
             Some (Inr (VProc (next_proc st) parms body env,
                        st\<lparr>next_proc := Suc (next_proc st)\<rparr>))
         | _ \<Rightarrow> Some (Inl ValueError))
      else
        bind_res (eval n H x0 env st) (\<lambda>proc st1.
          bind_res (eval_args (eval n H) xs env st1) (\<lambda>args st2.
            call (eval n H) H proc args st2)))"

text \<open>\<open>eval(x)\<close> without an environment is \<open>eval\<close> in the global one.\<close>

definition eval_global :: "nat \<Rightarrow> 'h host \<Rightarrow> 'h sexp \<Rightarrow> 'h state \<Rightarrow> ('h, 'h val) res" where
  "eval_global n H x st = eval n H x global_env st"

section \<open>Notions used in the statements\<close>

text \<open>A host without floating-point numbers and with an empty \<open>math\<close>, for the examples.\<close>

definition example_host :: "unit host" where
  "example_host =
     \<lparr>float_of = (\<lambda>t. None), math_vars = Map.empty,
      host_op = (\<lambda>p args. Inl TypeError), host_call = (\<lambda>h args. Inl TypeError),
      host_truthy = (\<lambda>h. True)\<rparr>"

text \<open>What both \<open>replace\<close> calls of \<open>tokenize\<close> make of one character.\<close>

definition paren_sp :: "char \<Rightarrow> string" where
  "paren_sp c = (if c = CHR ''('' then '' ( '' else if c = CHR '')'' then '' ) '' else [c])"

text \<open>A word without whitespace and parentheses; a token is a parenthesis or such a word.\<close>

definition plain :: "string \<Rightarrow> bool" where
  "plain w = (\<forall>c\<in>set w. \<not> is_space c \<and> c \<noteq> CHR ''('' \<and> c \<noteq> CHR '')'')"

definition token_ok :: "string \<Rightarrow> bool" where
  "token_ok t = (t \<noteq> [] \<and> (t = ''('' \<or> t = '')'' \<or> plain t))"

text \<open>
  \<open>chain st a as\<close>: \<open>as\<close> lists the environments from \<open>a\<close> outwards along \<open>outer\<close>,
  up to the one without an outer environment.
\<close>

fun chain :: "'h state \<Rightarrow> addr \<Rightarrow> addr list \<Rightarrow> bool" where
  "chain st a [] = False"
| "chain st a [b] = (a = b \<and> outer (frames st a) = None)"
| "chain st a (b # c # cs) = (a = b \<and> outer (frames st a) = Some c \<and> chain st c (c # cs))"

text \<open>
  The state after \<open>Env(['x'], [1], global_env)\<close> in the initial state of the example
  host: environment 1, binding \<open>x\<close>, inside the global environment 0.
\<close>

definition nested_state :: "unit state" where
  "nested_state =
     (init_state example_host)
       \<lparr>frames := (frames (init_state example_host))
           (1 := \<lparr>vars = [''x'' \<mapsto> VInt 1], outer = Some 0\<rparr>),
        next_addr := 2\<rparr>"


text \<open>
  \<open>ext st st'\<close>: every environment of \<open>st\<close> is in \<open>st'\<close> as it was. \<open>kept env st st'\<close>:
  the same for every environment but \<open>env\<close>.
\<close>

definition ext :: "'h state \<Rightarrow> 'h state \<Rightarrow> bool" where
  "ext st st' = (next_addr st \<le> next_addr st' \<and> (\<forall>a<next_addr st. frames st' a = frames st a))"

definition kept :: "addr \<Rightarrow> 'h state \<Rightarrow> 'h state \<Rightarrow> bool" where
  "kept env st st' =
     (next_addr st \<le> next_addr st' \<and>
      (\<forall>a. a < next_addr st \<and> a \<noteq> env \<longrightarrow> frames st' a = frames st a))"

text \<open>
  The state with one more environment, and the environment \<open>Env(parms, args, outer)\<close>
  for a parameter list of symbols: \<open>update\<close> on the zipped pairs is the map update
  \<open>[\<mapsto>]\<close>, which stops with the shorter list and lets a later pair win.
\<close>

definition push_frame :: "'h frame \<Rightarrow> 'h state \<Rightarrow> 'h state" where
  "push_frame f st = st\<lparr>frames := (frames st)(next_addr st := f), next_addr := Suc (next_addr st)\<rparr>"

definition call_frame :: "string list \<Rightarrow> 'h val list \<Rightarrow> addr \<Rightarrow> 'h frame" where
  "call_frame ps args cenv = \<lparr>vars = Map.empty(ps [\<mapsto>] args), outer = Some cenv\<rparr>"





text \<open>
  \<open>globals st g\<close>: environment \<open>g\<close> binds \<open>*\<close> to \<open>op.mul\<close>, and \<open>twice\<close> and \<open>repeat\<close>
  to the procedures their lambda expressions make in \<open>g\<close>.
\<close>

definition globals :: "'h state \<Rightarrow> addr \<Rightarrow> bool" where
  "globals st g =
     (g < next_addr st \<and> vars (frames st g) ''*'' = Some (VPrim Mul) \<and>
      (\<exists>i. vars (frames st g) ''twice'' =
             Some (VProc i (Lst [Sym ''x'']) (Lst [Sym ''*'', INum 2, Sym ''x'']) g)) \<and>
      (\<exists>j. vars (frames st g) ''repeat'' =
             Some (VProc j (Lst [Sym ''f''])
                    (Lst [Sym ''lambda'', Lst [Sym ''x''],
                          Lst [Sym ''f'', Lst [Sym ''f'', Sym ''x'']]]) g)))"









section \<open>Properties of the reader\<close>

subsection \<open>The tokenizer\<close>

lemma replace_both:
  "replace_chr CHR '')'' '' ) '' (replace_chr CHR ''('' '' ( '' s) = concat (map paren_sp s)"
  by (induction s) (simp_all add: replace_chr_def paren_sp_def)

lemma is_space_simps [simp]:
  "is_space CHR '' ''" "\<not> is_space CHR ''(''" "\<not> is_space CHR '')''"
  by (simp_all add: is_space_def)

lemma split_acc_paren:
  "split_acc w (paren_sp CHR ''('' @ r) = (if w = [] then [] else [w]) @ ''('' # split_acc [] r"
  "split_acc w (paren_sp CHR '')'' @ r) = (if w = [] then [] else [w]) @ '')'' # split_acc [] r"
  by (simp_all add: paren_sp_def)

lemma split_acc_other:
  "c \<noteq> CHR ''('' \<Longrightarrow> c \<noteq> CHR '')'' \<Longrightarrow>
     split_acc w (paren_sp c @ r) =
       (if is_space c then (if w = [] then [] else [w]) @ split_acc [] r
        else split_acc (w @ [c]) r)"
  by (simp add: paren_sp_def)

lemma plain_ok: "plain w \<Longrightarrow> w \<noteq> [] \<Longrightarrow> token_ok w"
  by (simp add: token_ok_def)

lemma paren_ok: "token_ok ''(''" "token_ok '')''"
  by (simp_all add: token_ok_def)

lemma split_acc_ok:
  "plain w \<Longrightarrow> \<forall>t\<in>set (split_acc w (concat (map paren_sp s))). token_ok t"
proof (induction s arbitrary: w)
  case Nil
  then show ?case by (simp add: plain_ok)
next
  case (Cons c s)
  have e: "\<forall>t\<in>set (split_acc [] (concat (map paren_sp s))). token_ok t"
    using Cons.IH [of "[]"] by (simp add: plain_def)
  consider "c = CHR ''(''" | "c = CHR '')''" | "c \<noteq> CHR ''(''" "c \<noteq> CHR '')''" by blast
  then show ?case
  proof cases
    case 1
    with e Cons.prems show ?thesis by (simp add: split_acc_paren plain_ok paren_ok)
  next
    case 2
    with e Cons.prems show ?thesis by (simp add: split_acc_paren plain_ok paren_ok)
  next
    case 3
    show ?thesis
    proof (cases "is_space c")
      case True
      with 3 e Cons.prems show ?thesis by (simp add: split_acc_other plain_ok)
    next
      case False
      with 3 Cons.prems have "plain (w @ [c])" by (simp add: plain_def)
      from Cons.IH [OF this] 3 False show ?thesis by (simp add: split_acc_other)
    qed
  qed
qed

lemma concat_split_acc: "concat (split_acc w s) = w @ filter (\<lambda>c. \<not> is_space c) s"
  by (induction s arbitrary: w) auto

lemma filter_paren_sp:
  "filter (\<lambda>c. \<not> is_space c) (concat (map paren_sp s)) = filter (\<lambda>c. \<not> is_space c) s"
  by (induction s) (auto simp: paren_sp_def)

lemma tokenize_tokens: "\<forall>t\<in>set (tokenize s). token_ok t"
  unfolding tokenize_def str_split_def replace_both
  using split_acc_ok [of "[]" s] by (simp add: plain_def)

lemma concat_tokenize: "concat (tokenize s) = filter (\<lambda>c. \<not> is_space c) s"
  unfolding tokenize_def str_split_def replace_both
  by (simp add: concat_split_acc filter_paren_sp)

lemma tokenize_examples:
  "tokenize '''' = []"
  "tokenize ''(a'' = [''('', ''a'']"
  "tokenize ''1 2'' = [''1'', ''2'']"
  "tokenize ''(a) b'' = [''('', ''a'', '')'', ''b'']"
  "tokenize ''(begin (define a 10) (* a 3))'' =
     [''('', ''begin'', ''('', ''define'', ''a'', ''10'', '')'', ''('', ''*'', ''a'', ''3'', '')'', '')'']"
  by code_simp+

subsection \<open>Atoms\<close>

lemma py_int_examples:
  "py_int ''10'' = Some 10" "py_int ''3'' = Some 3" "py_int ''6'' = Some 6" "py_int ''1'' = Some 1"
  "py_int ''4.1'' = None" "py_int ''+'' = None" "py_int ''and'' = None"
  "py_int ''begin'' = None" "py_int ''define'' = None" "py_int ''a'' = None" "py_int ''*'' = None"
  "py_int ''print'' = None"
  by code_simp+

lemma atom_int: "py_int t = Some i \<Longrightarrow> atom flt t = INum i"
  by (simp add: atom_def)

lemma atom_sym: "py_int t = None \<Longrightarrow> flt t = None \<Longrightarrow> atom flt t = Sym t"
  by (simp add: atom_def)

subsection \<open>Reading one expression\<close>

text \<open>Tokens after the ones a read uses do not change what it reads.\<close>

lemma read_append:
  "read_from_tokens flt ts = Inr (x, rest) \<Longrightarrow> read_from_tokens flt (ts @ ex) = Inr (x, rest @ ex)"
  "read_list flt L ts = Inr (xs, rest) \<Longrightarrow> read_list flt L (ts @ ex) = Inr (xs, rest @ ex)"
proof (induction flt ts and flt L ts arbitrary: x rest and xs rest
    rule: read_from_tokens_read_list.induct)
  case (1 flt)
  then show ?case by simp
next
  case (2 flt token tokens)
  then show ?case by (auto split: if_splits sum.splits)
next
  case (3 flt L)
  then show ?case by simp
next
  case (4 flt L t ts)
  then show ?case by (auto split: if_splits sum.splits)
qed

text \<open>A read that succeeds has used a prefix of the tokens, and reads that prefix alone.\<close>

lemma read_prefix:
  "read_from_tokens flt ts = Inr (x, rest) \<Longrightarrow>
     \<exists>pre. ts = pre @ rest \<and> pre \<noteq> [] \<and> read_from_tokens flt pre = Inr (x, [])"
  "read_list flt L ts = Inr (xs, rest) \<Longrightarrow>
     \<exists>pre. ts = pre @ rest \<and> pre \<noteq> [] \<and> read_list flt L pre = Inr (xs, [])"
proof (induction flt ts and flt L ts arbitrary: x rest and xs rest
    rule: read_from_tokens_read_list.induct)
  case (1 flt)
  then show ?case by simp
next
  case (2 flt token tokens)
  show ?case
  proof (cases "token = ''(''")
    case True
    with 2(2) obtain L where L: "read_list flt [] tokens = Inr (L, rest)" and x: "x = Lst L"
      by (auto split: sum.splits)
    from 2(1) [OF True L] obtain pre where
      "tokens = pre @ rest" "read_list flt [] pre = Inr (L, [])" by blast
    with True x have "token # tokens = (token # pre) @ rest \<and> token # pre \<noteq> [] \<and>
        read_from_tokens flt (token # pre) = Inr (x, [])" by simp
    then show ?thesis by blast
  next
    case False
    with 2(2) have "token \<noteq> '')''" "x = atom flt token" "rest = tokens"
      by (auto split: if_splits)
    with False have "token # tokens = [token] @ rest \<and> [token] \<noteq> [] \<and>
        read_from_tokens flt [token] = Inr (x, [])" by simp
    then show ?thesis by blast
  qed
next
  case (3 flt L)
  then show ?case by simp
next
  case (4 flt L t ts)
  show ?case
  proof (cases "t = '')''")
    case True
    with 4(3) have "t # ts = [t] @ rest \<and> [t] \<noteq> [] \<and> read_list flt L [t] = Inr (xs, [])"
      by simp
    then show ?thesis by blast
  next
    case False
    with 4(3) obtain y r where
      y: "read_from_tokens flt (t # ts) = Inr (y, r)" and
      r: "read_list flt (L @ [y]) r = Inr (xs, rest)"
      by (auto split: sum.splits)
    from 4(1) [OF False y] obtain p1 where
      p1: "t # ts = p1 @ r" "p1 \<noteq> []" "read_from_tokens flt p1 = Inr (y, [])" by blast
    from 4(2) [OF False y refl r] obtain p2 where
      p2: "r = p2 @ rest" "read_list flt (L @ [y]) p2 = Inr (xs, [])" by blast
    from p1 obtain q where q: "p1 = t # q" by (cases p1) auto
    from read_append(1) [OF p1(3), of p2] have "read_from_tokens flt (p1 @ p2) = Inr (y, p2)"
      by simp
    with q False p2 have "read_list flt L (p1 @ p2) = Inr (xs, [])" by simp
    with p1 p2 have "t # ts = (p1 @ p2) @ rest \<and> p1 @ p2 \<noteq> [] \<and>
        read_list flt L (p1 @ p2) = Inr (xs, [])" by simp
    then show ?thesis by blast
  qed
qed

lemma read_strict_prefix_fails:
  assumes "read_from_tokens flt pre = Inr (x, [])" and "strict_prefix p pre"
  shows "isl (read_from_tokens flt p)"
proof (rule ccontr)
  assume "\<not> isl (read_from_tokens flt p)"
  then obtain y r where y: "read_from_tokens flt p = Inr (y, r)"
    by (cases "read_from_tokens flt p") auto
  from assms(2) obtain q where q: "pre = p @ q" "q \<noteq> []"
    by (auto simp: strict_prefix_def prefix_def)
  from read_append(1) [OF y, of q] q assms(1) show False by simp
qed

text \<open>The \<open>SyntaxError\<close> for the end of the tokens is raised on no tokens at all, and only there.\<close>

lemma read_eof_iff:
  "(read_from_tokens flt ts = Inl (SyntaxError ''unexpected EOF while reading'')) = (ts = [])"
  "read_list flt L ts \<noteq> Inl (SyntaxError ''unexpected EOF while reading'')"
proof (induction flt ts and flt L ts rule: read_from_tokens_read_list.induct)
  case (1 flt)
  then show ?case by simp
next
  case (2 flt token tokens)
  then show ?case by (auto split: sum.splits)
next
  case (3 flt L)
  then show ?case by simp
next
  case (4 flt L t ts)
  then show ?case by (auto split: sum.splits)
qed

subsection \<open>The claims about the reader\<close>

text \<open>
  Claim C1. Reading \<open>["(", "print", "a", "10", ")", ")"]\<close> is claimed to fail with the
  \<open>SyntaxError\<close> for an unexpected closing parenthesis (message \<open>unexpected )\<close> in the
  source) at the last token. The reader returns at the parenthesis that closes the list:
  it yields \<open>[print, a, 10]\<close> and leaves the last token unread. The error is raised
  where a read starts at a closing parenthesis.
\<close>

theorem read_stray_paren_unread:
  "read_from_tokens flt [''('', ''print'', ''a'', ''10'', '')'', '')''] =
     Inr (Lst [atom flt ''print'', atom flt ''a'', INum 10], ['')''])
   \<and> read_from_tokens flt ('')'' # ts) = Inl (SyntaxError ''unexpected )'')"
  by (simp add: atom_int py_int_examples)

text \<open>
  Claim C3. Where the reader needs an expression and no token is left it is claimed to
  fail with the \<open>SyntaxError\<close> for the end of the input (message
  \<open>unexpected EOF while reading\<close> in the source). It does on no tokens at all,
  \<open>parse("")\<close>. Inside a list that is not closed the loop reads \<open>tokens[0]\<close> first, and
  the error is \<open>IndexError\<close>: the \<open>SyntaxError\<close> is raised on the empty token list only.
\<close>

theorem read_exhausted_in_list:
  "parse flt '''' = Inl (SyntaxError ''unexpected EOF while reading'')
   \<and> read_from_tokens flt [''('', ''a''] = Inl IndexError
   \<and> parse flt ''(a'' = Inl IndexError
   \<and> (read_from_tokens flt ts = Inl (SyntaxError ''unexpected EOF while reading'')) = (ts = [])"
  by (simp add: parse_def tokenize_examples read_eof_iff)

text \<open>
  Claim C8. The tokenizer is a total function; on the empty text it returns no token;
  every token is a parenthesis or a non-empty word without whitespace and parentheses,
  and the tokens in order spell the text without its whitespace. An atom is an integer
  where \<open>int\<close> reads the token, else a float where \<open>float\<close> does, else the token as a
  symbol. The text \<open>(begin (define a 10) (* a 3))\<close> has the thirteen tokens of the claim,
  and reading them gives \<open>[begin, [define, a, 10], [*, a, 3]]\<close> with the integers 10
  and 3 (the four words are symbols where \<open>float\<close> does not read them).
\<close>

theorem tokenize_atom_read:
  "tokenize '''' = []
   \<and> (\<forall>t\<in>set (tokenize s). token_ok t)
   \<and> concat (tokenize s) = filter (\<lambda>c. \<not> is_space c) s
   \<and> atom flt t =
       (case py_int t of
          Some i \<Rightarrow> INum i
        | None \<Rightarrow> (case flt t of Some f \<Rightarrow> FNum f | None \<Rightarrow> Sym t))
   \<and> tokenize ''(begin (define a 10) (* a 3))'' =
       [''('', ''begin'', ''('', ''define'', ''a'', ''10'', '')'', ''('', ''*'', ''a'', ''3'', '')'', '')'']
   \<and> read_from_tokens flt
         [''('', ''begin'', ''('', ''define'', ''a'', ''10'', '')'', ''('', ''*'', ''a'', ''3'', '')'', '')''] =
       Inr (Lst [atom flt ''begin'', Lst [atom flt ''define'', atom flt ''a'', INum 10],
                 Lst [atom flt ''*'', atom flt ''a'', INum 3]], [])
   \<and> (flt ''begin'' = None \<and> flt ''define'' = None \<and> flt ''a'' = None \<and> flt ''*'' = None \<longrightarrow>
        parse flt ''(begin (define a 10) (* a 3))'' =
          Inr (Lst [Sym ''begin'', Lst [Sym ''define'', Sym ''a'', INum 10],
                    Lst [Sym ''*'', Sym ''a'', INum 3]]))"
proof -
  have "read_from_tokens flt
         [''('', ''begin'', ''('', ''define'', ''a'', ''10'', '')'', ''('', ''*'', ''a'', ''3'', '')'', '')''] =
       Inr (Lst [atom flt ''begin'', Lst [atom flt ''define'', atom flt ''a'', INum 10],
                 Lst [atom flt ''*'', atom flt ''a'', INum 3]], [])"
    by (simp add: atom_int py_int_examples)
  then show ?thesis
    by (simp add: tokenize_examples tokenize_tokens concat_tokenize parse_def atom_sym
        py_int_examples) (simp add: atom_def)
qed

theorem tokenize_atom_read_witness:
  "parse (float_of example_host) ''(begin (define a 10) (* a 3))'' =
     Inr (Lst [Sym ''begin'', Lst [Sym ''define'', Sym ''a'', INum 10],
               Lst [Sym ''*'', Sym ''a'', INum 3]])
   \<and> token_ok ''begin''"
proof -
  note t = tokenize_atom_read [of "''(begin (define a 10) (* a 3))''" "float_of example_host" "''a''"]
  have "''begin'' \<in> set (tokenize ''(begin (define a 10) (* a 3))'')"
    by (simp add: tokenize_examples)
  with t have "token_ok ''begin''" by blast
  moreover have "float_of example_host = (\<lambda>t. None)" by (simp add: example_host_def)
  ultimately show ?thesis using t by simp
qed

text \<open>
  Claim C10. \<open>parse\<close> returns an expression exactly when some prefix of the tokens reads
  as that expression with no token left, no shorter prefix reads at all, and whatever
  follows the prefix is not looked at: \<open>1 2\<close> parses to the integer 1 and \<open>(a) b\<close> to
  the list of the one atom \<open>a\<close>.
\<close>

theorem parse_ignores_rest:
  "(parse flt program = Inr x) =
     (\<exists>pre rest. tokenize program = pre @ rest \<and> read_from_tokens flt pre = Inr (x, []) \<and>
        (\<forall>p. strict_prefix p pre \<longrightarrow> isl (read_from_tokens flt p)))
   \<and> parse flt ''1 2'' = Inr (INum 1)
   \<and> parse flt ''(a) b'' = Inr (Lst [atom flt ''a''])"
proof -
  have "(parse flt program = Inr x) =
     (\<exists>pre rest. tokenize program = pre @ rest \<and> read_from_tokens flt pre = Inr (x, []) \<and>
        (\<forall>p. strict_prefix p pre \<longrightarrow> isl (read_from_tokens flt p)))"
  proof
    assume "parse flt program = Inr x"
    then obtain rest where "read_from_tokens flt (tokenize program) = Inr (x, rest)"
      by (cases "read_from_tokens flt (tokenize program)") (auto simp: parse_def)
    from read_prefix(1) [OF this] obtain pre where
      pre: "tokenize program = pre @ rest" "read_from_tokens flt pre = Inr (x, [])" by blast
    then have "\<forall>p. strict_prefix p pre \<longrightarrow> isl (read_from_tokens flt p)"
      using read_strict_prefix_fails by blast
    with pre show "\<exists>pre rest. tokenize program = pre @ rest \<and>
        read_from_tokens flt pre = Inr (x, []) \<and>
        (\<forall>p. strict_prefix p pre \<longrightarrow> isl (read_from_tokens flt p))" by blast
  next
    assume "\<exists>pre rest. tokenize program = pre @ rest \<and> read_from_tokens flt pre = Inr (x, []) \<and>
        (\<forall>p. strict_prefix p pre \<longrightarrow> isl (read_from_tokens flt p))"
    then obtain pre rest where
      pre: "tokenize program = pre @ rest" "read_from_tokens flt pre = Inr (x, [])" by blast
    from read_append(1) [OF pre(2), of rest] pre(1) show "parse flt program = Inr x"
      by (simp add: parse_def)
  qed
  moreover have "parse flt ''1 2'' = Inr (INum 1)"
    by (simp add: parse_def tokenize_examples atom_int py_int_examples)
  moreover have "parse flt ''(a) b'' = Inr (Lst [atom flt ''a''])"
    by (simp add: parse_def tokenize_examples)
  ultimately show ?thesis by blast
qed

theorem parse_ignores_rest_witness:
  "parse (float_of example_host) ''(a) b'' = Inr (Lst [Sym ''a''])
   \<and> (\<exists>pre rest. tokenize ''(a) b'' = pre @ rest \<and>
        read_from_tokens (float_of example_host) pre = Inr (Lst [Sym ''a''], []) \<and>
        (\<forall>p. strict_prefix p pre \<longrightarrow> isl (read_from_tokens (float_of example_host) p)))"
proof -
  have a: "atom (float_of example_host) ''a'' = Sym ''a''"
    by (simp add: atom_sym py_int_examples example_host_def)
  from parse_ignores_rest [of "float_of example_host" "''(a) b''" "Lst [Sym ''a'']"]
  show ?thesis unfolding a by blast
qed

section \<open>Properties of the evaluator\<close>

subsection \<open>Results and the depth of calls\<close>

lemma bind_res_simps [simp]:
  "bind_res None f = None"
  "bind_res (Some (Inl e)) f = Some (Inl e)"
  "bind_res (Some (Inr (v, st))) f = f v st"
  by (simp_all add: bind_res_def)






subsection \<open>Looking a symbol up\<close>

lemma find_env_here: "vars (frames st a) s = Some v \<Longrightarrow> find_env st a s = Some (Inr a)"
  by (subst find_env.simps) simp

lemma find_env_outer:
  "vars (frames st a) s = None \<Longrightarrow> outer (frames st a) = Some b \<Longrightarrow>
     find_env st a s = find_env st b s"
  by (subst find_env.simps) simp

lemma find_env_root:
  "vars (frames st a) s = None \<Longrightarrow> outer (frames st a) = None \<Longrightarrow>
     find_env st a s = Some (Inl (AttributeError ''This arithmetic symbol does not exist''))"
  by (subst find_env.simps) simp

lemma find_env_unbound:
  "chain st a as \<Longrightarrow> \<forall>b\<in>set as. vars (frames st b) s = None \<Longrightarrow>
     find_env st a s = Some (Inl (AttributeError ''This arithmetic symbol does not exist''))"
proof (induction st a as rule: chain.induct)
  case (1 st a)
  then show ?case by simp
next
  case (2 st a b)
  then show ?case by (auto simp: find_env_root)
next
  case (3 st a b c cs)
  then show ?case by (auto simp: find_env_outer)
qed

lemma find_env_bound:
  "chain st a (pre @ b # post) \<Longrightarrow> \<forall>c\<in>set pre. vars (frames st c) s = None \<Longrightarrow>
     vars (frames st b) s = Some v \<Longrightarrow> find_env st a s = Some (Inr b)"
proof (induction pre arbitrary: a)
  case Nil
  then have "a = b" by (cases post) auto
  with Nil show ?case by (simp add: find_env_here)
next
  case (Cons p pre)
  from Cons.prems(1) have ap: "a = p" by (cases "pre @ b # post") auto
  obtain c cs where c: "pre @ b # post = c # cs" by (cases "pre @ b # post") auto
  with Cons.prems(1) ap have o: "outer (frames st a) = Some c" and ch: "chain st c (pre @ b # post)"
    by auto
  from Cons.prems(2) ap have "vars (frames st a) s = None" by simp
  then have "find_env st a s = find_env st c s" using o by (rule find_env_outer)
  also from Cons.IH [OF ch _ Cons.prems(3)] Cons.prems(2) have "find_env st c s = Some (Inr b)"
    by simp
  finally show ?case .
qed

lemma eval_Sym:
  "find_env st env s = Some (Inr a) \<Longrightarrow> vars (frames st a) s = Some v \<Longrightarrow>
     eval (Suc n) H (Sym s) env st = Some (Inr (v, st))"
  by simp

lemma new_env_nested:
  "new_env (Lst [Sym ''x'']) [VInt 1] global_env (init_state example_host) = Inr (1, nested_state)"
  by (simp add: new_env_def iter_parms_def nested_state_def init_state_def global_env_def)

lemma nested_frames:
  "frames nested_state (Suc 0) = \<lparr>vars = [''x'' \<mapsto> VInt 1], outer = Some 0\<rparr>"
  "frames nested_state 0 = standard_env example_host"
  by (simp_all add: nested_state_def init_state_def)

lemma std_vars_example: "vars (standard_env example_host) = map_option VPrim \<circ> map_of prim_table"
  by (simp add: standard_env_def example_host_def)

lemma prim_table_q: "map_of prim_table ''q'' = None" "map_of prim_table ''x'' = None"
  "map_of prim_table ''+'' = Some Add"
  by (simp_all add: prim_table_def)

text \<open>
  Claim C5. Along the chain of environments from the current one to the root: a symbol
  that no environment of the chain binds evaluates to the error that \<open>find\<close> raises
  (the source's \<open>AttributeError\<close>, the unbound-symbol error of the specification), never
  to a value; a symbol bound in an environment of the chain and in none before it
  evaluates to the value bound there, and the state is unchanged.
\<close>

theorem resolve_chain:
  assumes "chain st env as"
  shows "((\<forall>b\<in>set as. vars (frames st b) s = None) \<longrightarrow>
            eval (Suc n) H (Sym s) env st =
              Some (Inl (AttributeError ''This arithmetic symbol does not exist'')))
         \<and> (as = pre @ b # post \<and> (\<forall>c\<in>set pre. vars (frames st c) s = None) \<and>
               vars (frames st b) s = Some v \<longrightarrow>
               eval (Suc n) H (Sym s) env st = Some (Inr (v, st)))"
proof (intro conjI impI)
  assume "\<forall>b\<in>set as. vars (frames st b) s = None"
  with assms have "find_env st env s = Some (Inl (AttributeError ''This arithmetic symbol does not exist''))"
    by (rule find_env_unbound)
  then show "eval (Suc n) H (Sym s) env st =
      Some (Inl (AttributeError ''This arithmetic symbol does not exist''))" by simp
next
  assume a: "as = pre @ b # post \<and> (\<forall>c\<in>set pre. vars (frames st c) s = None) \<and>
               vars (frames st b) s = Some v"
  with assms have "find_env st env s = Some (Inr b)"
    using find_env_bound [of st env pre b post s v] by simp
  with a show "eval (Suc n) H (Sym s) env st = Some (Inr (v, st))" by simp
qed

theorem resolve_chain_witness:
  "chain nested_state 1 [1, 0]
   \<and> eval 1 example_host (Sym ''q'') 1 nested_state =
       Some (Inl (AttributeError ''This arithmetic symbol does not exist''))
   \<and> eval 1 example_host (Sym ''x'') 1 nested_state = Some (Inr (VInt 1, nested_state))
   \<and> eval 1 example_host (Sym ''+'') 1 nested_state = Some (Inr (VPrim Add, nested_state))"
proof -
  have c: "chain nested_state 1 [1, 0]"
    by (simp add: nested_state_def init_state_def standard_env_def)
  have q: "\<forall>b\<in>set [1, 0]. vars (frames nested_state b) ''q'' = None"
    by (simp add: nested_frames std_vars_example prim_table_q)
  have x: "[1, 0] = [] @ 1 # [0] \<and> (\<forall>c\<in>set []. vars (frames nested_state c) ''x'' = None) \<and>
      vars (frames nested_state 1) ''x'' = Some (VInt 1)"
    by (simp add: nested_frames)
  have p: "[1, 0] = [1] @ 0 # [] \<and> (\<forall>c\<in>set [1]. vars (frames nested_state c) ''+'' = None) \<and>
      vars (frames nested_state 0) ''+'' = Some (VPrim Add)"
    by (simp add: nested_frames std_vars_example prim_table_q)
  from resolve_chain [OF c, where s = "''q''" and n = 0 and H = example_host] q
  have 1: "eval (Suc 0) example_host (Sym ''q'') 1 nested_state =
       Some (Inl (AttributeError ''This arithmetic symbol does not exist''))"
    by (rule conjunct1 [THEN mp])
  from resolve_chain [OF c, where pre = "[]" and b = 1 and post = "[0]" and s = "''x''" and v = "VInt 1"
      and n = 0 and H = example_host] x
  have 2: "eval (Suc 0) example_host (Sym ''x'') 1 nested_state = Some (Inr (VInt 1, nested_state))"
    by (rule conjunct2 [THEN mp])
  from resolve_chain [OF c, where pre = "[1]" and b = 0 and post = "[]" and s = "''+''" and v = "VPrim Add"
      and n = 0 and H = example_host] p
  have 3: "eval (Suc 0) example_host (Sym ''+'') 1 nested_state = Some (Inr (VPrim Add, nested_state))"
    by (rule conjunct2 [THEN mp])
  from c 1 2 3 show ?thesis unfolding One_nat_def by (intro conjI)
qed

subsection \<open>The special forms and applications\<close>

lemma ext_kept: "ext st st' \<Longrightarrow> kept env st st'" by (auto simp: ext_def kept_def)
lemma kept_refl: "kept env st st" by (simp add: kept_def)
lemma kept_trans: "kept env a b \<Longrightarrow> kept env b c \<Longrightarrow> kept env a c" by (auto simp: kept_def)

lemma bind_res_Inr:
  assumes "bind_res r f = Some (Inr q)"
  obtains u st1 where "r = Some (Inr (u, st1))" "f u st1 = Some (Inr q)"
proof (cases r)
  case None
  with assms show ?thesis by simp
next
  case (Some a)
  show ?thesis
  proof (cases a)
    case (Inl e)
    with Some assms show ?thesis by simp
  next
    case (Inr p)
    obtain u st1 where "p = (u, st1)" by (cases p)
    with Inr Some assms that show ?thesis by simp
  qed
qed

lemma bind_res_InrD:
  "bind_res r f = Some (Inr q) \<Longrightarrow> \<exists>u st1. r = Some (Inr (u, st1)) \<and> f u st1 = Some (Inr q)"
  by (erule bind_res_Inr) blast

lemma bind_res_assoc:
  "bind_res (bind_res r f) g = bind_res r (\<lambda>v st. bind_res (f v st) g)"
  by (auto simp: bind_res_def split: option.splits sum.splits)

lemma eval_app:
  "x0 \<noteq> Sym ''if'' \<Longrightarrow> x0 \<noteq> Sym ''define'' \<Longrightarrow> x0 \<noteq> Sym ''print'' \<Longrightarrow> x0 \<noteq> Sym ''lambda'' \<Longrightarrow>
     eval (Suc n) H (Lst (x0 # xs)) env st =
       bind_res (eval n H x0 env st) (\<lambda>proc st1.
         bind_res (eval_args (eval n H) xs env st1) (\<lambda>args st2.
           call (eval n H) H proc args st2))"
  by simp

lemma eval_define:
  "eval (Suc n) H (Lst [Sym ''define'', Sym s, e]) env st =
     bind_res (eval n H e env st) (\<lambda>v st1. Some (Inr (VNone, bind_var env s v st1)))"
  by (simp add: setitem_def)

lemma eval_if:
  "eval (Suc n) H (Lst [Sym ''if'', t, c, a]) env st =
     bind_res (eval n H t env st) (\<lambda>v st1. eval n H (if truthy H v then c else a) env st1)"
  by simp

lemma eval_lambda:
  "eval (Suc n) H (Lst [Sym ''lambda'', parms, body]) env st =
     Some (Inr (VProc (next_proc st) parms body env, st\<lparr>next_proc := Suc (next_proc st)\<rparr>))"
  by simp

lemma std_prim: "map_of prim_table s = Some p \<Longrightarrow> vars (standard_env H) s = Some (VPrim p)"
  by (simp add: standard_env_def map_add_def)

lemma prim_table_lookup:
  "map_of prim_table ''and'' = Some AndOp" "map_of prim_table ''or'' = Some OrOp"
  "map_of prim_table ''not'' = Some NotOp" "map_of prim_table ''*'' = Some Mul"
  by (simp_all add: prim_table_def)

lemma init_frames0: "frames (init_state H) 0 = standard_env H"
  by (simp add: init_state_def)

lemma eval_prim_init:
  "map_of prim_table s = Some p \<Longrightarrow>
     eval (Suc n) H (Sym s) 0 (init_state H) = Some (Inr (VPrim p, init_state H))"
  by (simp add: find_env_here [of _ _ _ "VPrim p"] init_frames0 std_prim)

text \<open>
  Claim C2. A list headed by \<open>print\<close> is evaluated by the branch of \<open>define\<close>: for
  every list of trailing elements, environment, state and depth the two evaluations are
  the same run (same result, same state, same error). With a symbol and an expression
  behind it, the expression is evaluated in the current environment and the result is
  \<open>None\<close> in the state \<open>bind_var\<close> makes of the one the expression left: there the
  current environment maps the symbol to the value and is otherwise as before, every
  other environment is as before, and nothing has been written. So \<open>(print r 10)\<close> in
  the initial state prints nothing and binds \<open>r\<close>, which then evaluates to 10.
\<close>

theorem print_is_define:
  "eval n H (Lst (Sym ''print'' # xs)) env st = eval n H (Lst (Sym ''define'' # xs)) env st
   \<and> eval (Suc n) H (Lst [Sym ''print'', Sym s, e]) env st =
       bind_res (eval n H e env st) (\<lambda>v st1. Some (Inr (VNone, bind_var env s v st1)))
   \<and> vars (frames (bind_var env s v st1) env) = (vars (frames st1 env))(s \<mapsto> v)
   \<and> outer (frames (bind_var env s v st1) env) = outer (frames st1 env)
   \<and> frames (bind_var env s v st1) = (frames st1)(env := frames (bind_var env s v st1) env)
   \<and> next_addr (bind_var env s v st1) = next_addr st1
   \<and> next_proc (bind_var env s v st1) = next_proc st1
   \<and> out (bind_var env s v st1) = out st1
   \<and> eval_global 2 H (Lst [Sym ''print'', Sym ''r'', INum 10]) (init_state H) =
       Some (Inr (VNone, bind_var global_env ''r'' (VInt 10) (init_state H)))
   \<and> eval_global 1 H (Sym ''r'') (bind_var global_env ''r'' (VInt 10) (init_state H)) =
       Some (Inr (VInt 10, bind_var global_env ''r'' (VInt 10) (init_state H)))
   \<and> out (bind_var global_env ''r'' (VInt 10) (init_state H)) = []"
proof -
  have 1: "eval n H (Lst (Sym ''print'' # xs)) env st = eval n H (Lst (Sym ''define'' # xs)) env st"
    by (cases n) (simp_all add: eval.simps)
  have 2: "\<And>n s e env st. eval (Suc n) H (Lst [Sym ''print'', Sym s, e]) env st =
       bind_res (eval n H e env st) (\<lambda>v st1. Some (Inr (VNone, bind_var env s v st1)))"
    by (simp add: eval.simps setitem_def)
  have 3: "vars (frames (bind_var env s v st1) env) = (vars (frames st1 env))(s \<mapsto> v)"
    "outer (frames (bind_var env s v st1) env) = outer (frames st1 env)"
    "frames (bind_var env s v st1) = (frames st1)(env := frames (bind_var env s v st1) env)"
    "next_addr (bind_var env s v st1) = next_addr st1"
    "next_proc (bind_var env s v st1) = next_proc st1"
    "out (bind_var env s v st1) = out st1"
    by (simp_all add: bind_var_def)
  have 4: "eval_global 2 H (Lst [Sym ''print'', Sym ''r'', INum 10]) (init_state H) =
       Some (Inr (VNone, bind_var global_env ''r'' (VInt 10) (init_state H)))"
    by (simp add: eval_global_def numeral_2_eq_2 eval.simps setitem_def)
  have "vars (frames (bind_var global_env ''r'' (VInt 10) (init_state H)) global_env) ''r'' =
      Some (VInt 10)"
    by (simp add: bind_var_def)
  then have 5: "eval_global 1 H (Sym ''r'') (bind_var global_env ''r'' (VInt 10) (init_state H)) =
       Some (Inr (VInt 10, bind_var global_env ''r'' (VInt 10) (init_state H)))"
    unfolding eval_global_def One_nat_def by (simp add: eval.simps find_env_here)
  have 6: "out (bind_var global_env ''r'' (VInt 10) (init_state H)) = []"
    by (simp add: bind_var_def init_state_def)
  from 1 2 3 4 5 6 show ?thesis by (intro conjI)
qed

lemma and_1_0:
  "eval_global 2 H (Lst [Sym ''and'', INum 1, INum 0]) (init_state H) = Some (Inr (VInt 0, init_state H))"
  by (simp del: eval.simps add: eval.simps(3) eval_app eval_global_def global_env_def
      numeral_2_eq_2 eval_prim_init prim_table_lookup call_def apply_prim_def binary_def as_int_def)

lemma or_1_0:
  "eval_global 2 H (Lst [Sym ''or'', INum 1, INum 0]) (init_state H) = Some (Inr (VInt 1, init_state H))"
  by (simp del: eval.simps add: eval.simps(3) eval_app eval_global_def global_env_def
      numeral_2_eq_2 eval_prim_init prim_table_lookup call_def apply_prim_def binary_def as_int_def)

lemma not_1:
  "eval_global 2 H (Lst [Sym ''not'', INum 1]) (init_state H) = Some (Inr (VBool False, init_state H))"
  by (simp del: eval.simps add: eval.simps(3) eval_app eval_global_def global_env_def
      numeral_2_eq_2 eval_prim_init prim_table_lookup call_def apply_prim_def truthy_def)


lemma and_side_effect:
  "eval_global 4 H (Lst [Sym ''and'', INum 0,
        Lst [Sym ''if'', Lst [Sym ''define'', Sym ''z'', INum 5], INum 1, INum 2]]) (init_state H) =
     Some (Inr (VInt 0, bind_var global_env ''z'' (VInt 5) (init_state H)))"
  by (simp del: eval.simps add: eval.simps(3) eval_app eval_if eval_define eval_global_def
      global_env_def eval_nat_numeral eval_prim_init prim_table_lookup call_def apply_prim_def
      binary_def as_int_def truthy_def)

lemma apply_and_or_not:
  "apply_prim H AndOp [VInt a, VInt b] st = Inr (VInt (and a b), st)"
  "apply_prim H OrOp [VInt a, VInt b] st = Inr (VInt (or a b), st)"
  "apply_prim H NotOp [v] st = Inr (VBool (\<not> truthy H v), st)"
  by (simp_all add: apply_prim_def binary_def as_int_def)

text \<open>
  Claim C6. \<open>and\<close>, \<open>or\<close> and \<open>not\<close> are applications: the head is looked up, then
  every operand is evaluated from left to right, each in the state the one before left,
  and only then the callable runs on the values; nothing depends on the truth of the
  first operand. The callables of the table are \<open>&\<close>, \<open>|\<close> and \<open>not\<close> of the host:
  \<open>(and 1 0)\<close> is 0, \<open>(or 1 0)\<close> is 1, \<open>(not 1)\<close> is \<open>False\<close>, and
  \<open>(and 0 (if (define z 5) 1 2))\<close> is 0 and has bound \<open>z\<close>.
\<close>

theorem and_or_not_eager:
  "eval (Suc n) H (Lst [Sym ''and'', e1, e2]) env st =
     bind_res (eval n H (Sym ''and'') env st) (\<lambda>p st0.
       bind_res (eval n H e1 env st0) (\<lambda>v1 st1.
         bind_res (eval n H e2 env st1) (\<lambda>v2 st2.
           call (eval n H) H p [v1, v2] st2)))
   \<and> eval (Suc n) H (Lst [Sym ''or'', e1, e2]) env st =
     bind_res (eval n H (Sym ''or'') env st) (\<lambda>p st0.
       bind_res (eval n H e1 env st0) (\<lambda>v1 st1.
         bind_res (eval n H e2 env st1) (\<lambda>v2 st2.
           call (eval n H) H p [v1, v2] st2)))
   \<and> eval (Suc n) H (Lst [Sym ''not'', e1]) env st =
     bind_res (eval n H (Sym ''not'') env st) (\<lambda>p st0.
       bind_res (eval n H e1 env st0) (\<lambda>v1 st1.
         call (eval n H) H p [v1] st1))
   \<and> call ev H (VPrim AndOp) [VInt a, VInt b] st = Some (Inr (VInt (and a b), st))
   \<and> call ev H (VPrim OrOp) [VInt a, VInt b] st = Some (Inr (VInt (or a b), st))
   \<and> call ev H (VPrim NotOp) [v] st = Some (Inr (VBool (\<not> truthy H v), st))
   \<and> eval_global 2 H (Lst [Sym ''and'', INum 1, INum 0]) (init_state H) =
       Some (Inr (VInt 0, init_state H))
   \<and> eval_global 2 H (Lst [Sym ''or'', INum 1, INum 0]) (init_state H) =
       Some (Inr (VInt 1, init_state H))
   \<and> eval_global 2 H (Lst [Sym ''not'', INum 1]) (init_state H) =
       Some (Inr (VBool False, init_state H))
   \<and> eval_global 4 H (Lst [Sym ''and'', INum 0,
        Lst [Sym ''if'', Lst [Sym ''define'', Sym ''z'', INum 5], INum 1, INum 2]]) (init_state H) =
       Some (Inr (VInt 0, bind_var global_env ''z'' (VInt 5) (init_state H)))"
proof -
  have e: "\<And>es hd. hd \<in> {''and'', ''or'', ''not''} \<Longrightarrow>
      eval (Suc n) H (Lst (Sym hd # es)) env st =
       bind_res (eval n H (Sym hd) env st) (\<lambda>proc st1.
         bind_res (eval_args (eval n H) es env st1) (\<lambda>args st2.
           call (eval n H) H proc args st2))"
    by (rule eval_app) auto
  have 1: "eval (Suc n) H (Lst [Sym ''and'', e1, e2]) env st =
     bind_res (eval n H (Sym ''and'') env st) (\<lambda>p st0.
       bind_res (eval n H e1 env st0) (\<lambda>v1 st1.
         bind_res (eval n H e2 env st1) (\<lambda>v2 st2.
           call (eval n H) H p [v1, v2] st2)))"
    by (simp del: eval.simps add: e bind_res_assoc)
  have 2: "eval (Suc n) H (Lst [Sym ''or'', e1, e2]) env st =
     bind_res (eval n H (Sym ''or'') env st) (\<lambda>p st0.
       bind_res (eval n H e1 env st0) (\<lambda>v1 st1.
         bind_res (eval n H e2 env st1) (\<lambda>v2 st2.
           call (eval n H) H p [v1, v2] st2)))"
    by (simp del: eval.simps add: e bind_res_assoc)
  have 3: "eval (Suc n) H (Lst [Sym ''not'', e1]) env st =
     bind_res (eval n H (Sym ''not'') env st) (\<lambda>p st0.
       bind_res (eval n H e1 env st0) (\<lambda>v1 st1.
         call (eval n H) H p [v1] st1))"
    by (simp del: eval.simps add: e bind_res_assoc)
  have 4: "call ev H (VPrim AndOp) [VInt a, VInt b] st = Some (Inr (VInt (and a b), st))"
    "call ev H (VPrim OrOp) [VInt a, VInt b] st = Some (Inr (VInt (or a b), st))"
    "call ev H (VPrim NotOp) [v] st = Some (Inr (VBool (\<not> truthy H v), st))"
    by (simp_all add: call_def apply_and_or_not)
  from 1 2 3 4 and_1_0 [of H] or_1_0 [of H] not_1 [of H] and_side_effect [of H]
  show ?thesis by (intro conjI)
qed

subsection \<open>What an evaluation leaves alone\<close>

declare eval.simps [simp del]

lemma new_env_push:
  "new_env parms args cenv st = Inr (a, st') \<Longrightarrow>
     a = next_addr st \<and> next_addr st' = Suc (next_addr st) \<and>
     (\<forall>b. b \<noteq> next_addr st \<longrightarrow> frames st' b = frames st b)"
  by (auto simp: new_env_def split: sum.splits)

lemma map_sum_Inr_state: "map_sum id (\<lambda>v. (v, st)) r = Inr (v, st') \<Longrightarrow> st' = st"
  by (cases r) auto

lemma apply_prim_frames:
  "apply_prim H p args st = Inr (v, st') \<Longrightarrow> frames st' = frames st \<and> next_addr st' = next_addr st"
  by (cases p) (auto simp: apply_prim_def dest: map_sum_Inr_state)

lemma setitem_kept: "setitem env var v st = Inr st' \<Longrightarrow> kept env st st'"
  by (cases var) (auto simp: setitem_def bind_var_def kept_def)

lemma eval_args_kept:
  assumes "\<And>e st v st'. ev e env st = Some (Inr (v, st')) \<Longrightarrow> kept env st st'"
  shows "eval_args ev es env st = Some (Inr (vs, st')) \<Longrightarrow> kept env st st'"
proof (induction es arbitrary: st vs st')
  case Nil
  then show ?case by (simp add: kept_refl)
next
  case (Cons e es)
  from Cons.prems have "bind_res (ev e env st) (\<lambda>v st1.
       bind_res (eval_args ev es env st1) (\<lambda>vs st2. Some (Inr (v # vs, st2)))) =
       Some (Inr (vs, st'))" by simp
  then obtain v st1 where
    1: "ev e env st = Some (Inr (v, st1))" and
    2: "bind_res (eval_args ev es env st1) (\<lambda>vs st2. Some (Inr (v # vs, st2))) = Some (Inr (vs, st'))"
    by (rule bind_res_Inr)
  from bind_res_InrD [OF 2] obtain ws st2 where 3: "eval_args ev es env st1 = Some (Inr (ws, st2))"
    and 4: "Some (Inr (v # ws, st2)) = Some (Inr (vs, st'))"
    by blast
  from 4 have "st2 = st'" by simp
  with 3 Cons.IH have "kept env st1 st'" by simp
  with assms [OF 1] show ?case by (rule kept_trans)
qed

lemma call_ext:
  assumes "\<And>x a st v st'. ev x a st = Some (Inr (v, st')) \<Longrightarrow> kept a st st'"
    and "call ev H p args st = Some (Inr (v, st'))"
  shows "ext st st'"
proof (cases p)
  case (VProc pid parms body cenv)
  with assms(2) obtain a st1 where
    n: "new_env parms args cenv st = Inr (a, st1)" and b: "ev body a st1 = Some (Inr (v, st'))"
    by (auto simp: call_def split: sum.splits)
  from new_env_push [OF n] have a: "a = next_addr st" and na: "next_addr st1 = Suc (next_addr st)"
    and fr: "\<And>b. b \<noteq> next_addr st \<Longrightarrow> frames st1 b = frames st b" by simp_all
  from assms(1) [OF b] have k: "next_addr st1 \<le> next_addr st'"
    "\<And>c. c < next_addr st1 \<Longrightarrow> c \<noteq> a \<Longrightarrow> frames st' c = frames st1 c"
    by (simp_all add: kept_def)
  show ?thesis unfolding ext_def
  proof (intro conjI allI impI)
    from k(1) na show "next_addr st \<le> next_addr st'" by simp
  next
    fix c assume c: "c < next_addr st"
    with na a have "frames st' c = frames st1 c" by (intro k(2)) simp_all
    with c fr [of c] show "frames st' c = frames st c" by simp
  qed
next
  case (VPrim q)
  with assms(2) have "apply_prim H q args st = Inr (v, st')" by (simp add: call_def)
  from apply_prim_frames [OF this] show ?thesis by (simp add: ext_def)
next
  case (VHost h)
  with assms(2) have "map_sum id (\<lambda>v. (v, st)) (host_call H h args) = Inr (v, st')"
    by (simp add: call_def)
  from map_sum_Inr_state [OF this] show ?thesis by (simp add: ext_def)
next
  case (VInt i)
  with assms(2) show ?thesis by (simp add: call_def)
next
  case (VBool b)
  with assms(2) show ?thesis by (simp add: call_def)
next
  case VNone
  with assms(2) show ?thesis by (simp add: call_def)
qed

lemma eval_if_bad:
  "\<not> (\<exists>t c a. xs = [t, c, a]) \<Longrightarrow>
     eval (Suc n) H (Lst (Sym ''if'' # xs)) env st = Some (Inl ValueError)"
  by (auto simp: eval.simps split: list.splits)

lemma eval_define_bad:
  "x0 = Sym ''define'' \<or> x0 = Sym ''print'' \<Longrightarrow> \<not> (\<exists>var e. xs = [var, e]) \<Longrightarrow>
     eval (Suc n) H (Lst (x0 # xs)) env st = Some (Inl ValueError)"
  by (auto simp: eval.simps split: list.splits)

lemma eval_lambda_bad:
  "\<not> (\<exists>parms body. xs = [parms, body]) \<Longrightarrow>
     eval (Suc n) H (Lst (Sym ''lambda'' # xs)) env st = Some (Inl ValueError)"
  by (auto simp: eval.simps split: list.splits)

lemma eval_define_any:
  "x0 = Sym ''define'' \<or> x0 = Sym ''print'' \<Longrightarrow>
   eval (Suc n) H (Lst [x0, var, e]) env st =
     bind_res (eval n H e env st) (\<lambda>v st1.
               (case setitem env var v st1 of
                  Inl e \<Rightarrow> Some (Inl e)
                | Inr st2 \<Rightarrow> Some (Inr (VNone, st2))))"
  by (auto simp: eval.simps)


lemma eval_kept: "eval n H x env st = Some (Inr (v, st')) \<Longrightarrow> kept env st st'"
proof (induction n arbitrary: x env st v st')
  case 0
  then show ?case by (simp add: eval.simps)
next
  case (Suc n)
  show ?case
  proof (cases x)
    case (INum i)
    with Suc.prems show ?thesis by (auto simp: eval.simps kept_refl)
  next
    case (FNum f)
    with Suc.prems show ?thesis by (auto simp: eval.simps kept_refl)
  next
    case (Sym s)
    with Suc.prems show ?thesis by (auto simp: eval.simps kept_refl split: option.splits sum.splits)
  next
    case (Lst l)
    show ?thesis
    proof (cases l)
      case Nil
      with Lst Suc.prems show ?thesis by (simp add: eval.simps)
    next
      case (Cons x0 xs)
      note p = Suc.prems [unfolded Lst Cons]
      consider (iff) "x0 = Sym ''if''"
        | (def) "x0 = Sym ''define'' \<or> x0 = Sym ''print''"
        | (lam) "x0 = Sym ''lambda''"
        | (app) "x0 \<noteq> Sym ''if''" "x0 \<noteq> Sym ''define''" "x0 \<noteq> Sym ''print''" "x0 \<noteq> Sym ''lambda''"
        by blast
      then show ?thesis
      proof cases
        case iff
        with p eval_if_bad [of xs n H env st] obtain t c a where xs: "xs = [t, c, a]"
          by fastforce
        from p have "bind_res (eval n H t env st) (\<lambda>t st1.
               eval n H (if truthy H t then c else a) env st1) = Some (Inr (v, st'))"
          unfolding iff xs eval_if .
        from bind_res_InrD [OF this] obtain u st1 where 1: "eval n H t env st = Some (Inr (u, st1))"
          and 2: "eval n H (if truthy H u then c else a) env st1 = Some (Inr (v, st'))"
          by blast
        from Suc.IH [OF 1] Suc.IH [OF 2] show ?thesis by (rule kept_trans)
      next
        case def
        with p eval_define_bad [of x0 xs n H env st] obtain var e where xs: "xs = [var, e]"
          by fastforce
        from p have "bind_res (eval n H e env st) (\<lambda>v st1.
               (case setitem env var v st1 of
                  Inl e \<Rightarrow> Some (Inl e)
                | Inr st2 \<Rightarrow> Some (Inr (VNone, st2)))) = Some (Inr (v, st'))"
          unfolding xs eval_define_any [OF def] .
        from bind_res_InrD [OF this] obtain u st1 where 1: "eval n H e env st = Some (Inr (u, st1))"
          and 2: "(case setitem env var u st1 of
                  Inl e \<Rightarrow> Some (Inl e)
                | Inr st2 \<Rightarrow> Some (Inr (VNone, st2))) = Some (Inr (v, st'))"
          by blast
        from 2 have "setitem env var u st1 = Inr st'" by (simp split: sum.splits)
        then have "kept env st1 st'" by (rule setitem_kept)
        with Suc.IH [OF 1] show ?thesis by (rule kept_trans)
      next
        case lam
        with p eval_lambda_bad [of xs n H env st] obtain parms body where xs: "xs = [parms, body]"
          by fastforce
        from p have "st' = st\<lparr>next_proc := Suc (next_proc st)\<rparr>"
          unfolding lam xs eval_lambda by simp
        then show ?thesis by (simp add: kept_def)
      next
        case app
        from p have "bind_res (eval n H x0 env st) (\<lambda>proc st1.
          bind_res (eval_args (eval n H) xs env st1) (\<lambda>args st2.
            call (eval n H) H proc args st2)) = Some (Inr (v, st'))"
          unfolding eval_app [OF app] .
        from bind_res_InrD [OF this] obtain p st1 where
          1: "eval n H x0 env st = Some (Inr (p, st1))" and
          r: "bind_res (eval_args (eval n H) xs env st1) (\<lambda>args st2.
            call (eval n H) H p args st2) = Some (Inr (v, st'))"
          by blast
        from bind_res_InrD [OF r] obtain args st2 where
          2: "eval_args (eval n H) xs env st1 = Some (Inr (args, st2))" and
          3: "call (eval n H) H p args st2 = Some (Inr (v, st'))"
          by blast
        from 1 have "kept env st st1" by (rule Suc.IH)
        moreover from 2 have "kept env st1 st2" by (rule eval_args_kept [rotated]) (rule Suc.IH)
        moreover from 3 have "ext st2 st'" by (rule call_ext [rotated]) (rule Suc.IH)
        then have "kept env st2 st'" by (rule ext_kept)
        ultimately show ?thesis by (blast intro: kept_trans)
      qed
    qed
  qed
qed

subsection \<open>\<open>define\<close> and the call of a procedure\<close>

text \<open>
  Claim C7, as amended. Where evaluating \<open>e\<close> returns a value, \<open>(define s e)\<close> returns
  \<open>None\<close> and leaves the state that evaluating \<open>e\<close> left with one change, the binding of
  \<open>s\<close> in the current environment: its other bindings, its \<open>outer\<close> and every other
  environment are as evaluating \<open>e\<close> left them. And whatever \<open>e\<close> is, every environment
  other than the current one that was there before is unchanged: a binding of \<open>s\<close>
  further out is shadowed, not overwritten.
\<close>

theorem define_frame_effect:
  assumes "eval n H e env st = Some (Inr (v, st1))"
  shows "eval (Suc n) H (Lst [Sym ''define'', Sym s, e]) env st =
           Some (Inr (VNone, bind_var env s v st1))
         \<and> vars (frames (bind_var env s v st1) env) = (vars (frames st1 env))(s \<mapsto> v)
         \<and> outer (frames (bind_var env s v st1) env) = outer (frames st1 env)
         \<and> (\<forall>a. a \<noteq> env \<longrightarrow> frames (bind_var env s v st1) a = frames st1 a)
         \<and> (\<forall>a. a \<noteq> env \<and> a < next_addr st \<longrightarrow> frames (bind_var env s v st1) a = frames st a)
         \<and> next_addr (bind_var env s v st1) = next_addr st1
         \<and> next_proc (bind_var env s v st1) = next_proc st1
         \<and> out (bind_var env s v st1) = out st1"
proof -
  from assms have "eval (Suc n) H (Lst [Sym ''define'', Sym s, e]) env st =
           Some (Inr (VNone, bind_var env s v st1))"
    by (simp add: eval_define)
  moreover from eval_kept [OF assms]
  have "\<forall>a. a \<noteq> env \<and> a < next_addr st \<longrightarrow> frames (bind_var env s v st1) a = frames st a"
    by (simp add: kept_def bind_var_def)
  ultimately show ?thesis by (simp add: bind_var_def)
qed

lemma nested_frames':
  "frames nested_state 0 = standard_env example_host"
  "frames nested_state (Suc 0) = \<lparr>vars = [''x'' \<mapsto> VInt 1], outer = Some 0\<rparr>"
  by (simp_all add: nested_state_def init_state_def)

theorem define_frame_effect_witness:
  "eval 2 example_host (Lst [Sym ''define'', Sym ''+'', INum 5]) 1 nested_state =
     Some (Inr (VNone, bind_var 1 ''+'' (VInt 5) nested_state))
   \<and> vars (frames (bind_var 1 ''+'' (VInt 5) nested_state) 1) ''+'' = Some (VInt 5)
   \<and> vars (frames (bind_var 1 ''+'' (VInt 5) nested_state) 1) ''x'' = Some (VInt 1)
   \<and> vars (frames (bind_var 1 ''+'' (VInt 5) nested_state) 0) ''+'' = Some (VPrim Add)
   \<and> frames (bind_var 1 ''+'' (VInt 5) nested_state) 0 = frames nested_state 0"
proof -
  have e: "eval 1 example_host (INum 5) 1 nested_state = Some (Inr (VInt 5, nested_state))"
    by (simp add: eval.simps)
  have p: "vars (frames nested_state 0) ''+'' = Some (VPrim Add)"
    by (simp add: nested_frames' std_prim prim_table_def)
  have x: "vars (frames nested_state 1) ''x'' = Some (VInt 1)"
    by (simp add: nested_frames')
  from define_frame_effect [OF e, of "''+''"] p x show ?thesis
    by (simp add: numeral_2_eq_2)
qed

text \<open>
  The claim as stated fails where evaluating \<open>e\<close> itself binds: after
  \<open>(define a (if (define b 1) 2 3))\<close> in the global environment \<open>b\<close> is bound as well.
\<close>

theorem define_not_only_its_binding:
  "eval_global 4 example_host
       (Lst [Sym ''define'', Sym ''a'',
             Lst [Sym ''if'', Lst [Sym ''define'', Sym ''b'', INum 1], INum 2, INum 3]])
       (init_state example_host) =
     Some (Inr (VNone, bind_var global_env ''a'' (VInt 3)
                         (bind_var global_env ''b'' (VInt 1) (init_state example_host))))
   \<and> vars (frames (init_state example_host) global_env) ''b'' = None
   \<and> vars (frames (bind_var global_env ''a'' (VInt 3)
                      (bind_var global_env ''b'' (VInt 1) (init_state example_host))) global_env) ''b'' =
       Some (VInt 1)"
  by (simp add: eval_global_def eval_nat_numeral eval_define eval_if eval.simps(3) truthy_def
      bind_var_def global_env_def init_frames0 standard_env_def example_host_def prim_table_def)

lemma update_zip_syms: "update_zip (map Sym ps) args m = Inr (m(ps [\<mapsto>] args))"
proof (induction ps arbitrary: args m)
  case Nil
  then show ?case by simp
next
  case (Cons p ps)
  show ?case
  proof (cases args)
    case Nil
    then show ?thesis by simp
  next
    case (Cons a as)
    have "update_zip (map Sym (p # ps)) (a # as) m = update_zip (map Sym ps) as (m(p \<mapsto> a))"
      by simp
    also have "\<dots> = Inr ((m(p \<mapsto> a))(ps [\<mapsto>] as))" by (rule Cons.IH)
    finally show ?thesis using Cons by simp
  qed
qed

lemma new_env_syms:
  "new_env (Lst (map Sym ps)) args cenv st =
     Inr (next_addr st, push_frame (call_frame ps args cenv) st)"
  by (simp add: new_env_def iter_parms_def update_zip_syms push_frame_def call_frame_def)

lemma call_proc_syms:
  "call ev H (VProc pid (Lst (map Sym ps)) body cenv) args st =
     ev body (next_addr st) (push_frame (call_frame ps args cenv) st)"
  by (simp add: call_def new_env_syms)

lemma push_frame_simps:
  "frames (push_frame f st) (next_addr st) = f"
  "a \<noteq> next_addr st \<Longrightarrow> frames (push_frame f st) a = frames st a"
  "next_addr (push_frame f st) = Suc (next_addr st)"
  by (simp_all add: push_frame_def)

lemma map_upds_nth:
  "distinct ps \<Longrightarrow> i < length ps \<Longrightarrow> i < length args \<Longrightarrow> (m(ps [\<mapsto>] args)) (ps ! i) = Some (args ! i)"
proof (induction ps arbitrary: args i m)
  case Nil
  then show ?case by simp
next
  case (Cons p ps)
  then obtain a as where args: "args = a # as" by (cases args) auto
  show ?case
  proof (cases i)
    case 0
    with Cons.prems args show ?thesis by (simp add: map_upds_apply_nontin)
  next
    case (Suc j)
    with Cons.prems args have "((m(p \<mapsto> a))(ps [\<mapsto>] as)) (ps ! j) = Some (as ! j)"
      by (intro Cons.IH) simp_all
    with Suc args show ?thesis by simp
  qed
qed

text \<open>
  Claim C9, as amended. Calling a \<open>Procedure\<close> whose parameters are the symbols \<open>ps\<close>
  evaluates the body in a new environment inside the captured one, whatever the numbers
  of parameters and arguments: no error comes from the call itself. The new environment
  binds exactly the first \<open>min p n\<close> parameters, by position where the parameters are
  distinct. A parameter beyond the arguments is not bound there, so the body resolves
  it as the captured environment does: that fails as an unbound symbol only where no
  environment further out binds it.
\<close>

theorem call_binds_shorter:
  "call ev H (VProc pid (Lst (map Sym ps)) body cenv) args st =
     ev body (next_addr st) (push_frame (call_frame ps args cenv) st)
   \<and> frames (push_frame (call_frame ps args cenv) st) (next_addr st) = call_frame ps args cenv
   \<and> outer (call_frame ps args cenv) = Some cenv
   \<and> dom (vars (call_frame ps args cenv)) = set (take (min (length ps) (length args)) ps)
   \<and> (distinct ps \<and> i < min (length ps) (length args) \<longrightarrow>
        vars (call_frame ps args cenv) (ps ! i) = Some (args ! i))
   \<and> (y \<notin> set (take (length args) ps) \<longrightarrow>
        vars (call_frame ps args cenv) y = None \<and>
        eval n H (Sym y) (next_addr st) (push_frame (call_frame ps args cenv) st) =
          eval n H (Sym y) cenv (push_frame (call_frame ps args cenv) st))"
proof -
  let ?st = "push_frame (call_frame ps args cenv) st"
  have d: "dom (vars (call_frame ps args cenv)) = set (take (min (length ps) (length args)) ps)"
    by (simp add: call_frame_def min_def take_all)
  have n: "distinct ps \<and> i < min (length ps) (length args) \<longrightarrow>
        vars (call_frame ps args cenv) (ps ! i) = Some (args ! i)"
    by (simp add: call_frame_def map_upds_nth)
  have y: "y \<notin> set (take (length args) ps) \<longrightarrow>
        vars (call_frame ps args cenv) y = None \<and>
        eval n H (Sym y) (next_addr st) ?st = eval n H (Sym y) cenv ?st"
  proof
    assume "y \<notin> set (take (length args) ps)"
    then have "y \<notin> dom (Map.empty(ps [\<mapsto>] args))" by simp
    then have "(Map.empty(ps [\<mapsto>] args)) y = None" by (meson domIff)
    then have v: "vars (call_frame ps args cenv) y = None"
      by (simp add: call_frame_def)
    have f: "frames ?st (next_addr st) = call_frame ps args cenv"
      by (simp add: push_frame_simps)
    have "find_env ?st (next_addr st) y = find_env ?st cenv y"
    proof (rule find_env_outer)
      show "vars (frames ?st (next_addr st)) y = None" by (simp only: f v)
      show "outer (frames ?st (next_addr st)) = Some cenv"
        by (simp add: push_frame_simps call_frame_def)
    qed
    then have "eval n H (Sym y) (next_addr st) ?st = eval n H (Sym y) cenv ?st"
      by (cases n) (simp_all add: eval.simps)
    with v show "vars (call_frame ps args cenv) y = None \<and>
        eval n H (Sym y) (next_addr st) ?st = eval n H (Sym y) cenv ?st" ..
  qed
  from d n y show ?thesis
    by (simp add: call_proc_syms push_frame_simps) (simp add: call_frame_def)
qed


theorem call_binds_shorter_witness:
  "call (eval 1 example_host) example_host (VProc 0 (Lst [Sym ''x'', Sym ''w'']) (Sym ''w'') 0)
       [VInt 1] (init_state example_host) =
     Some (Inl (AttributeError ''This arithmetic symbol does not exist''))
   \<and> vars (call_frame [''x'', ''w''] [VInt 1 :: unit val] 0) ''x'' = Some (VInt 1)
   \<and> vars (call_frame [''x'', ''w''] [VInt 1 :: unit val] 0) ''w'' = None
   \<and> dom (vars (call_frame [''x'', ''w''] [VInt 1 :: unit val] 0)) = {''x''}"
proof -
  let ?st = "push_frame (call_frame [''x'', ''w''] [VInt 1] 0) (init_state example_host)"
  note t = call_binds_shorter [of "eval 1 example_host" example_host 0 "[''x'', ''w'']" "Sym ''w''" 0
      "[VInt 1]" "init_state example_host" 0 "''w''" 1]
  have n: "next_addr (init_state example_host) = 1" by (simp add: init_state_def)
  have w: "''w'' \<notin> set (take (length [VInt 1 :: unit val]) [''x'', ''w''])" by simp
  have "vars (frames ?st 0) ''w'' = None" "outer (frames ?st 0) = None"
    by (simp_all add: push_frame_def init_state_def standard_env_def example_host_def
        prim_table_def)
  then have "find_env ?st 0 ''w'' =
      Some (Inl (AttributeError ''This arithmetic symbol does not exist''))"
    by (rule find_env_root)
  then have e: "eval 1 example_host (Sym ''w'') 0 ?st =
      Some (Inl (AttributeError ''This arithmetic symbol does not exist''))"
    by (simp add: eval.simps)
  from t w have "eval 1 example_host (Sym ''w'') (next_addr (init_state example_host)) ?st =
      eval 1 example_host (Sym ''w'') 0 ?st" by blast
  with t e have 1: "call (eval 1 example_host) example_host
       (VProc 0 (Lst [Sym ''x'', Sym ''w'']) (Sym ''w'') 0) [VInt 1] (init_state example_host) =
     Some (Inl (AttributeError ''This arithmetic symbol does not exist''))" by simp
  from t w have 2: "vars (call_frame [''x'', ''w''] [VInt 1 :: unit val] 0) ''w'' = None" by blast
  from t have "distinct [''x'', ''w''] \<and> (0::nat) < min (length [''x'', ''w'']) (length [VInt 1 :: unit val]) \<longrightarrow>
        vars (call_frame [''x'', ''w''] [VInt 1 :: unit val] 0) ([''x'', ''w''] ! 0) = Some ([VInt 1] ! 0)"
    by blast
  then have 3: "vars (call_frame [''x'', ''w''] [VInt 1 :: unit val] 0) ''x'' = Some (VInt 1)" by simp
  from t have 4: "dom (vars (call_frame [''x'', ''w''] [VInt 1 :: unit val] 0)) = {''x''}" by simp
  from 1 3 2 4 show ?thesis by (intro conjI)
qed

text \<open>
  The claim as stated says that a reference to a parameter left without an argument
  fails. After \<open>(define y 7)\<close>, \<open>((lambda (x y) y) 1)\<close> is 7.
\<close>

theorem excess_parameter_found_outside:
  "eval_global 2 example_host (Lst [Sym ''define'', Sym ''y'', INum 7]) (init_state example_host) =
     Some (Inr (VNone, bind_var global_env ''y'' (VInt 7) (init_state example_host)))
   \<and> map_option (map_sum id fst)
       (eval_global 3 example_host
          (Lst [Lst [Sym ''lambda'', Lst [Sym ''x'', Sym ''y''], Sym ''y''], INum 1])
          (bind_var global_env ''y'' (VInt 7) (init_state example_host))) =
     Some (Inr (VInt 7))"
proof -
  let ?st0 = "bind_var 0 ''y'' (VInt 7) (init_state example_host)"
  let ?st1 = "?st0\<lparr>next_proc := Suc (next_proc ?st0)\<rparr>"
  let ?st2 = "push_frame (call_frame [''x'', ''y''] [VInt 1] 0) ?st1"
  have 1: "eval 2 example_host (Lst [Sym ''define'', Sym ''y'', INum 7]) 0
       (init_state example_host) = Some (Inr (VNone, ?st0))"
    by (simp add: numeral_2_eq_2 eval_define eval.simps(3))
  have n: "next_addr ?st1 = 1" by (simp add: bind_var_def init_state_def)
  have g: "vars (frames ?st2 0) ''y'' = Some (VInt 7)"
    by (simp add: push_frame_def bind_var_def init_state_def)
  have "find_env ?st2 1 ''y'' = find_env ?st2 0 ''y''"
    by (rule find_env_outer)
      (simp_all add: push_frame_def bind_var_def init_state_def call_frame_def)
  also from g have "\<dots> = Some (Inr 0)" by (rule find_env_here)
  finally have y: "eval 2 example_host (Sym ''y'') 1 ?st2 = Some (Inr (VInt 7, ?st2))"
    using g by (simp add: eval.simps numeral_2_eq_2)
  have m: "Lst [Sym ''x'', Sym ''y''] = Lst (map Sym [''x'', ''y''])" by simp
  have "call (eval 2 example_host) example_host
      (VProc (next_proc ?st0) (Lst [Sym ''x'', Sym ''y'']) (Sym ''y'') 0) [VInt 1] ?st1 =
      eval 2 example_host (Sym ''y'') (next_addr ?st1) ?st2"
    unfolding m by (rule call_proc_syms)
  with y have c: "call (eval 2 example_host) example_host
      (VProc (next_proc ?st0) (Lst [Sym ''x'', Sym ''y'']) (Sym ''y'') 0) [VInt 1] ?st1 =
      Some (Inr (VInt 7, ?st2))"
    by (simp only: n)
  have l: "eval 2 example_host (Lst [Sym ''lambda'', Lst [Sym ''x'', Sym ''y''], Sym ''y'']) 0 ?st0 =
      Some (Inr (VProc (next_proc ?st0) (Lst [Sym ''x'', Sym ''y'']) (Sym ''y'') 0, ?st1))"
    unfolding numeral_2_eq_2 by (rule eval_lambda)
  have a: "eval_args (eval 2 example_host) [INum 1] 0 ?st1 = Some (Inr ([VInt 1], ?st1))"
    by (simp add: numeral_2_eq_2 eval.simps(3))
  have "eval 3 example_host
          (Lst [Lst [Sym ''lambda'', Lst [Sym ''x'', Sym ''y''], Sym ''y''], INum 1]) 0 ?st0 =
      bind_res (eval 2 example_host (Lst [Sym ''lambda'', Lst [Sym ''x'', Sym ''y''], Sym ''y'']) 0 ?st0)
        (\<lambda>proc st1. bind_res (eval_args (eval 2 example_host) [INum 1] 0 st1)
           (\<lambda>args st2. call (eval 2 example_host) example_host proc args st2))"
    unfolding eval_nat_numeral by (rule eval_app) simp_all
  also have "\<dots> = Some (Inr (VInt 7, ?st2))"
    by (simp only: l a c bind_res_simps)
  finally show ?thesis using 1 by (simp add: eval_global_def global_env_def)
qed

subsection \<open>Closures: \<open>twice\<close> and \<open>repeat\<close>\<close>














lemma globals_ext: "globals st g \<Longrightarrow> ext st st1 \<Longrightarrow> globals st1 g"
  by (auto simp: globals_def ext_def)



















end
